theory Spec2Isabelle
  imports Complex_Main "HOL-Library.AList"
begin

section \<open>Tables\<close>

text \<open>
  A pandas DataFrame is a list of column names and a list of rows, each row the list of its
  cells in column order. \<open>read_csv\<close> types every column: a cell is text, a whole number
  (int64), a floating-point number (float64) or the missing value. A floating-point cell is
  kept as the text that \<open>str\<close> prints for it (\<open>1.0\<close>, \<open>2.5\<close>, \<open>1e+16\<close>); that text
  names the number, so two such cells are the same number exactly when the texts are equal
  (the two zeros apart).
\<close>

datatype cell = Str string | Num int | Flt string | NaN

record table =
  columns :: "string list"
  rows :: "cell list list"

text \<open>The exceptions that reach the caller. \<open>TypeError\<close> is the one of the rapidfuzz
  library; its message is not modelled.\<close>

datatype error =
    KeyError string
  | ValueError string
  | TypeError
  | InvalidIndexError

text \<open>Position of the first occurrence of a column name.\<close>

fun index_of :: "'a \<Rightarrow> 'a list \<Rightarrow> nat option" where
  "index_of x [] = None"
| "index_of x (y # ys) =
     (if x = y then Some 0 else map_option Suc (index_of x ys))"

text \<open>
  \<open>df[name]\<close>: the cells of one column, or \<open>KeyError\<close> when there is no such column.
  The tables of this program have no repeated column name (\<open>read_csv\<close> renames a repeated
  header); on a repeated name the library would give a frame of all the columns of that
  name, which is not modelled: the first one is taken here, and \<open>wf_table\<close> below rules
  the case out.
\<close>

definition get_column :: "table \<Rightarrow> string \<Rightarrow> error + cell list" where
  "get_column df name =
     (case index_of name (columns df) of
        None \<Rightarrow> Inl (KeyError name)
      | Some i \<Rightarrow> Inr (map (\<lambda>r. r ! i) (rows df)))"

text \<open>
  A table as \<open>read_csv\<close> and \<open>concat\<close> give it: unique column names, and one cell per
  column in every row.
\<close>

definition wf_table :: "table \<Rightarrow> bool" where
  "wf_table t \<longleftrightarrow>
     distinct (columns t) \<and> list_all (\<lambda>r. length r = length (columns t)) (rows t)"

text \<open>\<open>str(x)\<close> of a whole number, and of the floating-point number equal to it (exact up
  to 2 to the power 53, where every whole number is a float64 and prints with \<open>.0\<close>).\<close>

fun digits :: "nat \<Rightarrow> string" where
  "digits n =
     (if n < 10 then [char_of (48 + n)]
      else digits (n div 10) @ [char_of (48 + n mod 10)])"

definition int_text :: "int \<Rightarrow> string" where
  "int_text i = (if i < 0 then CHR ''-'' # digits (nat (- i)) else digits (nat i))"

definition float_text :: "int \<Rightarrow> string" where
  "float_text i = int_text i @ ''.0''"

text \<open>
  \<open>astype(str)\<close> on one cell of a column. What it makes of a missing value depends on the
  pandas release, so that is the parameter \<open>na\<close>: up to 2.x the text \<open>nan\<close>
  (\<open>Some ''nan''\<close>); from 3.0 on the value stays missing (\<open>None\<close>) and \<open>tolist\<close> hands
  it on as such.
\<close>

definition astype_str :: "string option \<Rightarrow> cell \<Rightarrow> string option" where
  "astype_str na c =
     (case c of
        Str s \<Rightarrow> Some s
      | Num i \<Rightarrow> Some (int_text i)
      | Flt s \<Rightarrow> Some s
      | NaN \<Rightarrow> na)"

text \<open>\<open>df[df['Title'] == s]\<close>: the rows whose Title cell is the text \<open>s\<close>, under the
  same columns. A number or a missing value never equals a text.\<close>

definition rows_with_title :: "table \<Rightarrow> string \<Rightarrow> error + table" where
  "rows_with_title df s =
     (case index_of ''Title'' (columns df) of
        None \<Rightarrow> Inl (KeyError ''Title'')
      | Some i \<Rightarrow> Inr (df\<lparr>rows := filter (\<lambda>r. r ! i = Str s) (rows df)\<rparr>))"

section \<open>The similarity search of the rapidfuzz library\<close>

type_synonym score = rat
type_synonym scorer = "string \<Rightarrow> string \<Rightarrow> score"

text \<open>
  \<open>fuzz.ratio\<close> is the normalised insertion/deletion similarity on a scale of 0 to 100:
  twice the length of a longest common subsequence over the sum of the lengths, and 100
  for two empty strings. The library computes it in double precision; \<open>ratio\<close> is the
  exact value, and the functions below take the scorer as a parameter, so that what is
  proved of them holds of the library's rounded scores as well. A string is a list of
  8-bit characters here, where Python counts code points: \<open>ratio\<close> is the library's
  value on titles within Latin-1.
\<close>

fun lcs :: "'a list \<Rightarrow> 'a list \<Rightarrow> nat" where
  "lcs [] ys = 0"
| "lcs (x # xs) [] = 0"
| "lcs (x # xs) (y # ys) =
     (if x = y then Suc (lcs xs ys) else max (lcs xs (y # ys)) (lcs (x # xs) ys))"

definition ratio :: scorer where
  "ratio s1 s2 =
     (let lensum = length s1 + length s2
      in if lensum = 0 then 100
         else 100 * (of_nat (2 * lcs s1 s2) / of_nat lensum))"

text \<open>
  \<open>process.extract(query, choices, scorer, limit, score_cutoff)\<close> first checks the cutoff:
  for a scorer on the scale of 0 to 100 a cutoff outside that range is a \<open>TypeError\<close>.
  It then scores every choice that is not missing, keeps those at or above the cutoff,
  ranks them by descending score (equal scores in the order of the choices) and returns
  the first \<open>limit\<close> of them as triples (choice, score, index). A call that passes no
  \<open>limit\<close> gets 5.
\<close>

type_synonym match = "string \<times> score \<times> nat"

fun insert_desc :: "match \<Rightarrow> match list \<Rightarrow> match list" where
  "insert_desc x [] = [x]"
| "insert_desc x (y # ys) =
     (if fst (snd y) \<le> fst (snd x) then x # y # ys else y # insert_desc x ys)"

definition sort_desc :: "match list \<Rightarrow> match list" where
  "sort_desc ms = foldr insert_desc ms []"

definition scored :: "scorer \<Rightarrow> string \<Rightarrow> string option list \<Rightarrow> match list" where
  "scored sc query choices =
     List.map_filter (\<lambda>(i, c). map_option (\<lambda>s. (s, sc query s, i)) c) (enumerate 0 choices)"

definition ranked :: "scorer \<Rightarrow> string \<Rightarrow> string option list \<Rightarrow> score \<Rightarrow> match list" where
  "ranked sc query choices score_cutoff =
     sort_desc (filter (\<lambda>m. score_cutoff \<le> fst (snd m)) (scored sc query choices))"

definition default_limit :: "nat option" where
  "default_limit = Some 5"

definition process_extract ::
  "string \<Rightarrow> string option list \<Rightarrow> scorer \<Rightarrow> nat option \<Rightarrow> score \<Rightarrow> error + match list" where
  "process_extract query choices sc limit score_cutoff =
     (if score_cutoff < 0 \<or> 100 < score_cutoff then Inl TypeError
      else Inr (case limit of
                  None \<Rightarrow> ranked sc query choices score_cutoff
                | Some n \<Rightarrow> take n (ranked sc query choices score_cutoff)))"

section \<open>The title matcher\<close>

text \<open>
  The three accumulators of \<open>fuzzy_match_titles\<close>: the matched row sets, the unmatched
  titles, and the dictionary of conflicts, kept as an association list in insertion order
  (assigning to a key that is present replaces its value in place).
\<close>

type_synonym match_state = "table list \<times> string list \<times> (string \<times> string list) list"

fun fuzzy_match_loop ::
  "scorer \<Rightarrow> string option list \<Rightarrow> table \<Rightarrow> score \<Rightarrow> string list \<Rightarrow> match_state
   \<Rightarrow> error + match_state" where
  "fuzzy_match_loop sc inventory_titles inventory_df threshold [] st = Inr st"
| "fuzzy_match_loop sc inventory_titles inventory_df threshold (title # rest)
     (matched_rows, unmatched_titles, conflict_choices) =
     (case process_extract title inventory_titles sc default_limit threshold of
        Inl e \<Rightarrow> Inl e
      | Inr matches \<Rightarrow>
          if matches = [] then
            fuzzy_match_loop sc inventory_titles inventory_df threshold rest
              (matched_rows, unmatched_titles @ [title], conflict_choices)
          else if length matches = 1 then
            (case rows_with_title inventory_df (fst (hd matches)) of
               Inl e \<Rightarrow> Inl e
             | Inr match_rows \<Rightarrow>
                 fuzzy_match_loop sc inventory_titles inventory_df threshold rest
                   (matched_rows @ [match_rows], unmatched_titles, conflict_choices))
          else
            fuzzy_match_loop sc inventory_titles inventory_df threshold rest
              (matched_rows, unmatched_titles,
               AList.update title (map fst matches) conflict_choices))"

text \<open>
  Lines 35 to 54. The scorer of the program is \<open>fuzz.ratio\<close>; \<open>sc\<close> and \<open>na\<close> stand for
  the two libraries as described above. The selected titles are texts, as the program
  takes them from a Title column of texts; numbers, on which \<open>process.extract\<close> raises,
  are not selected titles of this function.
\<close>

definition fuzzy_match_titles ::
  "scorer \<Rightarrow> string option \<Rightarrow> string list \<Rightarrow> table \<Rightarrow> score \<Rightarrow> error + match_state" where
  "fuzzy_match_titles sc na selected_titles inventory_df threshold =
     (case get_column inventory_df ''Title'' of
        Inl e \<Rightarrow> Inl e
      | Inr title_cells \<Rightarrow>
          fuzzy_match_loop sc (map (astype_str na) title_cells) inventory_df threshold
            selected_titles ([], [], []))"

section \<open>Conflict resolution\<close>

text \<open>
  \<open>st.selectbox(label, options, key)\<close> returns one of the options it was given; which one
  is the user's decision, so the selection is a parameter: a function from the conflicting
  title and the offered options to the chosen option.
\<close>

type_synonym selectbox = "string \<Rightarrow> string list \<Rightarrow> string"

fun resolve_loop ::
  "selectbox \<Rightarrow> (string \<times> string list) list \<Rightarrow> table \<Rightarrow> table list \<Rightarrow> error + table list"
  where
  "resolve_loop sb [] inventory_df selected_rows = Inr selected_rows"
| "resolve_loop sb ((title, options) # rest) inventory_df selected_rows =
     (let choice = sb title (options @ [''Skip''])
      in if choice \<noteq> ''Skip'' then
           (case rows_with_title inventory_df choice of
              Inl e \<Rightarrow> Inl e
            | Inr chosen_rows \<Rightarrow> resolve_loop sb rest inventory_df (selected_rows @ [chosen_rows]))
         else resolve_loop sb rest inventory_df selected_rows)"

definition resolve_conflicts ::
  "selectbox \<Rightarrow> (string \<times> string list) list \<Rightarrow> table \<Rightarrow> error + table list" where
  "resolve_conflicts sb conflict_choices inventory_df =
     resolve_loop sb conflict_choices inventory_df []"

section \<open>Concatenation and duplicate removal\<close>

text \<open>\<open>drop_duplicates\<close> keeps the first of any rows that are equal in every column.\<close>

fun keep_first :: "'a list \<Rightarrow> 'a list" where
  "keep_first [] = []"
| "keep_first (x # xs) = x # keep_first (removeAll x xs)"

definition drop_duplicates :: "table \<Rightarrow> table" where
  "drop_duplicates df = df\<lparr>rows := keep_first (rows df)\<rparr>"

text \<open>
  \<open>pd.concat(objs, ignore_index=True)\<close> raises \<open>ValueError\<close> on an empty list. Frames with
  the same columns are stacked. Frames whose columns differ are aligned on the union of
  their columns, in order of first appearance, a cell a frame does not have becoming the
  missing value; that alignment needs each frame's column names to be unique. Cells are
  stacked as they are: the row sets of this program are selections of one table, so a
  column has the same type in all of them (the library's change of type when a column of
  whole numbers meets floating-point numbers or blanks does not arise and is not modelled).
\<close>

definition reindex :: "string list \<Rightarrow> table \<Rightarrow> cell list \<Rightarrow> cell list" where
  "reindex cols df r =
     map (\<lambda>c. case index_of c (columns df) of None \<Rightarrow> NaN | Some i \<Rightarrow> r ! i) cols"

definition pd_concat :: "table list \<Rightarrow> error + table" where
  "pd_concat objs =
     (if objs = [] then Inl (ValueError ''No objects to concatenate'')
      else if list_all (\<lambda>df. columns df = columns (hd objs)) objs then
        Inr \<lparr>columns = columns (hd objs), rows = concat (map rows objs)\<rparr>
      else if list_ex (\<lambda>df. \<not> distinct (columns df)) objs then Inl InvalidIndexError
      else
        (let cols = keep_first (concat (map columns objs))
         in Inr \<lparr>columns = cols,
                 rows = concat (map (\<lambda>df. map (reindex cols df) (rows df)) objs)\<rparr>))"

text \<open>Lines 104 and 105: the filtered inventory built from the two lists of row sets.\<close>

definition filtered_inventory :: "table list \<Rightarrow> table list \<Rightarrow> error + table" where
  "filtered_inventory matched conflict_rows =
     (case pd_concat (matched @ conflict_rows) of
        Inl e \<Rightarrow> Inl e
      | Inr df \<Rightarrow> Inr (drop_duplicates df))"

text \<open>Lines 101 to 105: matching at the default threshold, resolution, construction.\<close>

definition filter_inventory ::
  "scorer \<Rightarrow> string option \<Rightarrow> selectbox \<Rightarrow> string list \<Rightarrow> table \<Rightarrow> error + table" where
  "filter_inventory sc na sb selected_titles inventory_df =
     (case fuzzy_match_titles sc na selected_titles inventory_df 95 of
        Inl e \<Rightarrow> Inl e
      | Inr (matched, unmatched, conflicts) \<Rightarrow>
          (case resolve_conflicts sb conflicts inventory_df of
             Inl e \<Rightarrow> Inl e
           | Inr conflict_rows \<Rightarrow> filtered_inventory matched conflict_rows))"

section \<open>The product filter\<close>

text \<open>
  \<open>isin\<close> compares cells as the values pandas typed them, with no conversion to text: a
  text equals the same text, a number the same number (a whole number and a floating-point
  number are compared as numbers), a missing value another missing value; a text never
  equals a number.
\<close>

fun cell_eq :: "cell \<Rightarrow> cell \<Rightarrow> bool" where
  "cell_eq (Num i) (Flt s) = (s = float_text i)"
| "cell_eq (Flt s) (Num i) = (s = float_text i)"
| "cell_eq a b = (a = b)"

definition isin :: "cell list \<Rightarrow> cell \<Rightarrow> bool" where
  "isin vals c = list_ex (cell_eq c) vals"

definition match_handles :: "table \<Rightarrow> table \<Rightarrow> error + table" where
  "match_handles product_df inventory_df =
     (case index_of ''Handle'' (columns product_df) of
        None \<Rightarrow> Inl (KeyError ''Handle'')
      | Some i \<Rightarrow>
          (case get_column inventory_df ''Handle'' of
             Inl e \<Rightarrow> Inl e
           | Inr handles \<Rightarrow>
               Inr (product_df\<lparr>rows := filter (\<lambda>r. isin handles (r ! i)) (rows product_df)\<rparr>)))"

text \<open>
  Lines 111 to 120: with a Handle column on both tables the filtered product table is made
  and both tables are offered for download; otherwise only a warning is shown. The warning
  text is given as its UTF-8 bytes: a warning sign with a variation selector, then the
  sentence.
\<close>

datatype outcome =
    Downloads table table
  | Warning string

definition handle_warning :: string where
  "handle_warning =
     map char_of [226, 154, 160, 239, 184, 143 :: nat]
     @ '' Handle column missing in one of the datasets. Skipping product filtering.''"

definition filter_product :: "table \<Rightarrow> table \<Rightarrow> error + outcome" where
  "filter_product product_df filtered_inv =
     (if ''Handle'' \<in> set (columns product_df) \<and> ''Handle'' \<in> set (columns filtered_inv) then
        (case match_handles product_df filtered_inv of
           Inl e \<Rightarrow> Inl e
         | Inr filtered_prod \<Rightarrow> Inr (Downloads filtered_inv (drop_duplicates filtered_prod)))
      else Inr (Warning handle_warning))"

definition proceed_with_matching ::
  "scorer \<Rightarrow> string option \<Rightarrow> selectbox \<Rightarrow> table \<Rightarrow> table \<Rightarrow> string list \<Rightarrow> error + outcome"
  where
  "proceed_with_matching sc na sb product_df inventory_df selected_titles =
     (case filter_inventory sc na sb selected_titles inventory_df of
        Inl e \<Rightarrow> Inl e
      | Inr filtered_inv \<Rightarrow> filter_product product_df filtered_inv)"

section \<open>The matcher as a relation between inputs and results\<close>

text \<open>
  The same loop, one rule per branch of the source: \<open>match_steps\<close> relates the titles that
  remain and the accumulators to the result of the run, \<open>matcher_run\<close> the arguments of
  \<open>fuzzy_match_titles\<close> to what it returns or raises.
\<close>

inductive match_steps ::
  "scorer \<Rightarrow> string option list \<Rightarrow> table \<Rightarrow> score \<Rightarrow> string list \<Rightarrow> match_state
   \<Rightarrow> error + match_state \<Rightarrow> bool"
  for sc :: scorer and inventory_titles :: "string option list" and inventory_df :: table
    and threshold :: score
  where
  finished:
    "match_steps sc inventory_titles inventory_df threshold [] st (Inr st)"
| extract_raises:
    "process_extract title inventory_titles sc default_limit threshold = Inl e \<Longrightarrow>
     match_steps sc inventory_titles inventory_df threshold (title # rest) st (Inl e)"
| unmatched:
    "process_extract title inventory_titles sc default_limit threshold = Inr [] \<Longrightarrow>
     match_steps sc inventory_titles inventory_df threshold rest
       (matched_rows, unmatched_titles @ [title], conflict_choices) res \<Longrightarrow>
     match_steps sc inventory_titles inventory_df threshold (title # rest)
       (matched_rows, unmatched_titles, conflict_choices) res"
| unique:
    "process_extract title inventory_titles sc default_limit threshold = Inr [m] \<Longrightarrow>
     rows_with_title inventory_df (fst m) = Inr match_rows \<Longrightarrow>
     match_steps sc inventory_titles inventory_df threshold rest
       (matched_rows @ [match_rows], unmatched_titles, conflict_choices) res \<Longrightarrow>
     match_steps sc inventory_titles inventory_df threshold (title # rest)
       (matched_rows, unmatched_titles, conflict_choices) res"
| unique_raises:
    "process_extract title inventory_titles sc default_limit threshold = Inr [m] \<Longrightarrow>
     rows_with_title inventory_df (fst m) = Inl e \<Longrightarrow>
     match_steps sc inventory_titles inventory_df threshold (title # rest)
       (matched_rows, unmatched_titles, conflict_choices) (Inl e)"
| conflict:
    "process_extract title inventory_titles sc default_limit threshold = Inr matches \<Longrightarrow>
     2 \<le> length matches \<Longrightarrow>
     match_steps sc inventory_titles inventory_df threshold rest
       (matched_rows, unmatched_titles,
        AList.update title (map fst matches) conflict_choices) res \<Longrightarrow>
     match_steps sc inventory_titles inventory_df threshold (title # rest)
       (matched_rows, unmatched_titles, conflict_choices) res"


section \<open>Notions used to state the properties\<close>

text \<open>A row set taken from a table: the same columns, and rows of that table only.\<close>

definition from_inventory :: "table \<Rightarrow> table \<Rightarrow> bool" where
  "from_inventory df t \<longleftrightarrow> columns t = columns df \<and> set (rows t) \<subseteq> set (rows df)"

text \<open>The inventory title entries that score at or above the threshold against a selected
  title, in inventory order, one entry per inventory row (a title that two rows carry
  occurs twice; a title that stayed missing does not occur).\<close>

definition hits :: "scorer \<Rightarrow> score \<Rightarrow> string option list \<Rightarrow> string \<Rightarrow> string list" where
  "hits sc threshold inventory_titles title =
     filter (\<lambda>c. threshold \<le> sc title c) (List.map_filter (\<lambda>c. c) inventory_titles)"

text \<open>The ranking of two matches: the higher score first, and of two equal scores the
  one that comes first in the inventory.\<close>

definition ranks_before :: "match \<Rightarrow> match \<Rightarrow> bool" where
  "ranks_before a b \<longleftrightarrow>
     fst (snd b) < fst (snd a) \<or> (fst (snd a) = fst (snd b) \<and> snd (snd a) < snd (snd b))"

section \<open>Column lookup\<close>

lemma index_of_None_iff: "index_of x xs = None \<longleftrightarrow> x \<notin> set xs"
  by (induction xs) auto

lemma index_of_Some_bound: "index_of x xs = Some i \<Longrightarrow> i < length xs \<and> xs ! i = x"
  by (induction xs arbitrary: i) (auto split: if_splits)

lemma index_of_mem: "x \<in> set xs \<Longrightarrow> \<exists>i. index_of x xs = Some i"
  using index_of_None_iff [of x xs] by (cases "index_of x xs") auto

section \<open>Row selections\<close>

lemma rows_with_title_total:
  "''Title'' \<in> set (columns df) \<Longrightarrow> \<exists>t. rows_with_title df s = Inr t"
  using index_of_mem [of "''Title''" "columns df"]
  by (auto simp: rows_with_title_def)

lemma rows_with_title_Inr:
  "rows_with_title df s = Inr t \<Longrightarrow> columns t = columns df \<and> set (rows t) \<subseteq> set (rows df)"
  by (auto simp: rows_with_title_def split: option.splits)

lemma rows_with_title_from_inventory:
  "rows_with_title df s = Inr t \<Longrightarrow> from_inventory df t"
  using rows_with_title_Inr [of df s t] by (simp add: from_inventory_def)

section \<open>The search within the range of the cutoff\<close>

lemma process_extract_in_range:
  "0 \<le> th \<Longrightarrow> th \<le> 100 \<Longrightarrow>
   process_extract q cs sc default_limit th = Inr (take 5 (ranked sc q cs th))"
  by (simp add: process_extract_def default_limit_def)

lemma process_extract_Inr:
  "process_extract q cs sc default_limit th = Inr ms \<Longrightarrow> ms = take 5 (ranked sc q cs th)"
  by (simp add: process_extract_def default_limit_def split: if_splits)

section \<open>The two loops\<close>

lemma fuzzy_match_loop_total:
  "''Title'' \<in> set (columns df) \<Longrightarrow> 0 \<le> th \<Longrightarrow> th \<le> 100 \<Longrightarrow>
   \<exists>st'. fuzzy_match_loop sc ts df th sel (m, u, c) = Inr st'"
proof (induction sel arbitrary: m u c)
  case Nil
  then show ?case by simp
next
  case (Cons title rest)
  let ?ms = "take 5 (ranked sc title ts th)"
  have ex: "process_extract title ts sc default_limit th = Inr ?ms"
    using Cons.prems(2,3) by (rule process_extract_in_range)
  from rows_with_title_total [OF Cons.prems(1)] obtain t where
    t: "rows_with_title df (fst (hd ?ms)) = Inr t" ..
  show ?case
    using Cons.IH [OF Cons.prems] t
    by (simp add: ex)
qed

lemma fuzzy_match_loop_from_inventory:
  "fuzzy_match_loop sc ts df th sel (m, u, c) = Inr (m', u', c') \<Longrightarrow>
   list_all (from_inventory df) m \<Longrightarrow> list_all (from_inventory df) m'"
proof (induction sel arbitrary: m u c)
  case Nil
  then show ?case by simp
next
  case (Cons title rest)
  from Cons.prems(1) obtain ms where
    ex: "process_extract title ts sc default_limit th = Inr ms"
    by (cases "process_extract title ts sc default_limit th") simp_all
  show ?case
  proof (cases "ms = []")
    case True
    with Cons.prems(1) ex
    have "fuzzy_match_loop sc ts df th rest (m, u @ [title], c) = Inr (m', u', c')"
      by simp
    with Cons.IH Cons.prems(2) show ?thesis by blast
  next
    case ne: False
    show ?thesis
    proof (cases "length ms = 1")
      case True
      with ne ex Cons.prems(1) obtain t where
        t: "rows_with_title df (fst (hd ms)) = Inr t"
        and run: "fuzzy_match_loop sc ts df th rest (m @ [t], u, c) = Inr (m', u', c')"
        by (cases "rows_with_title df (fst (hd ms))") simp_all
      from rows_with_title_from_inventory [OF t] Cons.prems(2)
      have "list_all (from_inventory df) (m @ [t])" by simp
      with Cons.IH run show ?thesis by blast
    next
      case False
      with ne ex Cons.prems(1) have
        "fuzzy_match_loop sc ts df th rest (m, u, AList.update title (map fst ms) c)
           = Inr (m', u', c')"
        by simp
      with Cons.IH Cons.prems(2) show ?thesis by blast
    qed
  qed
qed

lemma resolve_loop_from_inventory:
  "resolve_loop sb cs df acc = Inr acc' \<Longrightarrow>
   list_all (from_inventory df) acc \<Longrightarrow> list_all (from_inventory df) acc'"
proof (induction cs arbitrary: acc)
  case Nil
  then show ?case by simp
next
  case (Cons p rest)
  obtain title options where p: "p = (title, options)" by (cases p) auto
  show ?case
  proof (cases "sb title (options @ [''Skip'']) = ''Skip''")
    case True
    with Cons.prems(1) have "resolve_loop sb rest df acc = Inr acc'" by (simp add: p)
    with Cons.IH Cons.prems(2) show ?thesis by blast
  next
    case False
    with Cons.prems(1) obtain t where
      t: "rows_with_title df (sb title (options @ [''Skip''])) = Inr t"
      and run: "resolve_loop sb rest df (acc @ [t]) = Inr acc'"
      by (cases "rows_with_title df (sb title (options @ [''Skip'']))")
         (simp_all add: p Let_def)
    from rows_with_title_from_inventory [OF t] Cons.prems(2)
    have "list_all (from_inventory df) (acc @ [t])" by simp
    with Cons.IH run show ?thesis by blast
  qed
qed

section \<open>Duplicate removal and concatenation\<close>

lemma set_keep_first: "set (keep_first xs) = set xs"
  by (induction xs rule: keep_first.induct) auto

lemma distinct_keep_first: "distinct (keep_first xs)"
  by (induction xs rule: keep_first.induct) (auto simp: set_keep_first)

lemma pd_concat_from_inventory:
  assumes "list_all (from_inventory df) objs" and "pd_concat objs = Inr t"
  shows "columns t = columns df \<and> rows t = concat (map rows objs)"
proof -
  from assms(2) have ne: "objs \<noteq> []" by (auto simp: pd_concat_def)
  then have "hd objs \<in> set objs" by simp
  with assms(1) have hd: "columns (hd objs) = columns df"
    by (auto simp: list_all_iff from_inventory_def)
  from assms(1) have "list_all (\<lambda>d. columns d = columns (hd objs)) objs"
    by (auto simp: list_all_iff from_inventory_def hd)
  with ne assms(2) hd show ?thesis by (auto simp: pd_concat_def)
qed

section \<open>Empty selection\<close>

text \<open>
  C9. When the sequence of selected titles is empty and the inventory has its Title column,
  the matcher returns no matched rows, no unmatched titles and an empty conflict map.
\<close>

theorem empty_selection_all_empty:
  "''Title'' \<in> set (columns inventory_df) \<Longrightarrow>
   fuzzy_match_titles sc na [] inventory_df threshold = Inr ([], [], [])"
  using index_of_mem [of "''Title''" "columns inventory_df"]
  by (auto simp: fuzzy_match_titles_def get_column_def)

theorem empty_selection_all_empty_witness:
  "''Title'' \<in> set (columns \<lparr>columns = [''Title''], rows = [[Str ''Hat'']]\<rparr>) \<and>
   fuzzy_match_titles ratio (Some ''nan'') [] \<lparr>columns = [''Title''], rows = [[Str ''Hat'']]\<rparr> 95
     = Inr ([], [], [])"
  using empty_selection_all_empty
    [of "\<lparr>columns = [''Title''], rows = [[Str ''Hat'']]\<rparr>" ratio "Some ''nan''" 95]
  by simp

section \<open>Failure behaviour of the matcher\<close>

text \<open>
  C3. On valid inputs (a well-formed inventory table with a Title column, and a threshold
  from 0 to 100) the matcher returns its three outputs for every list of selected titles
  and every scorer: it does not raise. Without a Title column it raises
  \<open>KeyError('Title')\<close> to its caller, whatever the other arguments; it does not return
  an empty match.
\<close>

theorem matcher_total_or_key_error:
  "(wf_table inventory_df \<and> ''Title'' \<in> set (columns inventory_df) \<and>
    0 \<le> threshold \<and> threshold \<le> 100 \<longrightarrow>
      (\<exists>result. fuzzy_match_titles sc na selected_titles inventory_df threshold = Inr result)) \<and>
   (''Title'' \<notin> set (columns inventory_df) \<longrightarrow>
      fuzzy_match_titles sc na selected_titles inventory_df threshold = Inl (KeyError ''Title''))"
proof (intro conjI impI)
  assume valid: "wf_table inventory_df \<and> ''Title'' \<in> set (columns inventory_df) \<and>
    0 \<le> threshold \<and> threshold \<le> 100"
  then have has: "''Title'' \<in> set (columns inventory_df)"
    and lo: "0 \<le> threshold" and hi: "threshold \<le> 100"
    by simp_all
  from index_of_mem [OF has]
  obtain i where i: "index_of ''Title'' (columns inventory_df) = Some i" ..
  have "\<exists>st'. fuzzy_match_loop sc (map (astype_str na) (map (\<lambda>r. r ! i) (rows inventory_df)))
          inventory_df threshold selected_titles ([], [], []) = Inr st'"
    by (rule fuzzy_match_loop_total [OF has lo hi])
  then show "\<exists>result. fuzzy_match_titles sc na selected_titles inventory_df threshold = Inr result"
    by (simp add: fuzzy_match_titles_def get_column_def i)
next
  assume "''Title'' \<notin> set (columns inventory_df)"
  then have "index_of ''Title'' (columns inventory_df) = None"
    by (simp add: index_of_None_iff)
  then show "fuzzy_match_titles sc na selected_titles inventory_df threshold
      = Inl (KeyError ''Title'')"
    by (simp add: fuzzy_match_titles_def get_column_def)
qed

theorem matcher_total_or_key_error_witness:
  "wf_table \<lparr>columns = [''Title'', ''Qty''], rows = [[Str ''Hat'', Num 3], [NaN, Num 4]]\<rparr> \<and>
   (\<exists>result. fuzzy_match_titles ratio None [''Hat'']
      \<lparr>columns = [''Title'', ''Qty''], rows = [[Str ''Hat'', Num 3], [NaN, Num 4]]\<rparr> 95
      = Inr result) \<and>
   fuzzy_match_titles ratio None [''Hat'']
      \<lparr>columns = [''Name''], rows = [[Str ''Hat'']]\<rparr> 95 = Inl (KeyError ''Title'')"
proof -
  have wf: "wf_table \<lparr>columns = [''Title'', ''Qty''], rows = [[Str ''Hat'', Num 3], [NaN, Num 4]]\<rparr>"
    by (simp add: wf_table_def)
  have returns: "\<exists>result. fuzzy_match_titles ratio None [''Hat'']
      \<lparr>columns = [''Title'', ''Qty''], rows = [[Str ''Hat'', Num 3], [NaN, Num 4]]\<rparr> 95
      = Inr result"
    using matcher_total_or_key_error
      [of "\<lparr>columns = [''Title'', ''Qty''], rows = [[Str ''Hat'', Num 3], [NaN, Num 4]]\<rparr>"
          95 ratio None "[''Hat'']"] wf
    by simp
  have raises: "fuzzy_match_titles ratio None [''Hat'']
      \<lparr>columns = [''Name''], rows = [[Str ''Hat'']]\<rparr> 95 = Inl (KeyError ''Title'')"
    using matcher_total_or_key_error
      [of "\<lparr>columns = [''Name''], rows = [[Str ''Hat'']]\<rparr>" 95 ratio None "[''Hat'']"]
    by simp
  from wf returns raises show ?thesis by (intro conjI)
qed

section \<open>The filtered inventory\<close>

text \<open>
  C5. Whenever the inventory step (matching, conflict resolution, concatenation, duplicate
  removal) produces a table, that table has no two equal rows and each of its rows is a row
  of the inventory table.
\<close>

theorem filter_inventory_distinct_subset:
  assumes "filter_inventory sc na sb selected_titles inventory_df = Inr filtered"
  shows "distinct (rows filtered) \<and> set (rows filtered) \<subseteq> set (rows inventory_df)"
proof -
  from assms obtain m u c where
    fm: "fuzzy_match_titles sc na selected_titles inventory_df 95 = Inr (m, u, c)"
    by (cases "fuzzy_match_titles sc na selected_titles inventory_df 95")
       (auto simp: filter_inventory_def)
  with assms obtain cr where
    rc: "resolve_conflicts sb c inventory_df = Inr cr"
    and fi: "filtered_inventory m cr = Inr filtered"
    by (cases "resolve_conflicts sb c inventory_df") (auto simp: filter_inventory_def)
  from fi obtain t where
    pc: "pd_concat (m @ cr) = Inr t" and fd: "filtered = drop_duplicates t"
    by (cases "pd_concat (m @ cr)") (auto simp: filtered_inventory_def)
  from fm obtain cells where
    "fuzzy_match_loop sc (map (astype_str na) cells) inventory_df 95 selected_titles ([], [], [])
       = Inr (m, u, c)"
    by (cases "get_column inventory_df ''Title''") (auto simp: fuzzy_match_titles_def)
  then have "list_all (from_inventory inventory_df) m"
    using fuzzy_match_loop_from_inventory by fastforce
  moreover from rc have "list_all (from_inventory inventory_df) cr"
    using resolve_loop_from_inventory [of sb c inventory_df "[]" cr]
    by (simp add: resolve_conflicts_def)
  ultimately have all: "list_all (from_inventory inventory_df) (m @ cr)" by simp
  from pd_concat_from_inventory [OF all pc] have "rows t = concat (map rows (m @ cr))" by simp
  moreover from all have "\<forall>d \<in> set (m @ cr). set (rows d) \<subseteq> set (rows inventory_df)"
    by (simp add: list_all_iff from_inventory_def)
  ultimately have "set (rows t) \<subseteq> set (rows inventory_df)" by auto
  then show ?thesis
    by (simp add: fd drop_duplicates_def distinct_keep_first set_keep_first)
qed

theorem filter_inventory_distinct_subset_witness:
  "filter_inventory ratio (Some ''nan'') (\<lambda>title options. ''Skip'') [''Hat'', ''Sock'']
     \<lparr>columns = [''Title'', ''Handle''],
      rows = [[Str ''Hat'', Str ''h1''], [Str ''Cap'', Str ''h2'']]\<rparr>
     = Inr \<lparr>columns = [''Title'', ''Handle''], rows = [[Str ''Hat'', Str ''h1'']]\<rparr>
   \<and> distinct [[Str ''Hat'', Str ''h1'']]
   \<and> set [[Str ''Hat'', Str ''h1'']] \<subseteq> set [[Str ''Hat'', Str ''h1''], [Str ''Cap'', Str ''h2'']]"
proof -
  have run: "filter_inventory ratio (Some ''nan'') (\<lambda>title options. ''Skip'') [''Hat'', ''Sock'']
     \<lparr>columns = [''Title'', ''Handle''],
      rows = [[Str ''Hat'', Str ''h1''], [Str ''Cap'', Str ''h2'']]\<rparr>
     = Inr \<lparr>columns = [''Title'', ''Handle''], rows = [[Str ''Hat'', Str ''h1'']]\<rparr>"
    by (simp add: filter_inventory_def fuzzy_match_titles_def get_column_def astype_str_def
        process_extract_def default_limit_def ranked_def scored_def
        sort_desc_def ratio_def rows_with_title_def
        resolve_conflicts_def filtered_inventory_def pd_concat_def drop_duplicates_def)
  from filter_inventory_distinct_subset [OF run] run show ?thesis by simp
qed

section \<open>Nothing to concatenate\<close>

text \<open>
  C10. When the matching pass gives no unique-match row set and conflict resolution gives no
  row set (every selected title unmatched, or every conflict skipped), building the filtered
  inventory raises \<open>ValueError\<close>: \<open>pd.concat\<close> has no objects to concatenate. No empty
  table is returned.
\<close>

theorem no_row_sets_raises:
  assumes "fuzzy_match_titles sc na selected_titles inventory_df 95
             = Inr ([], unmatched, conflicts)"
    and "resolve_conflicts sb conflicts inventory_df = Inr []"
  shows "filtered_inventory [] [] = Inl (ValueError ''No objects to concatenate'') \<and>
         filter_inventory sc na sb selected_titles inventory_df
           = Inl (ValueError ''No objects to concatenate'')"
  using assms by (simp add: filter_inventory_def filtered_inventory_def pd_concat_def)

theorem no_row_sets_raises_witness:
  "filter_inventory ratio (Some ''nan'') (\<lambda>title options. ''Skip'') [''Hat'', ''Sock'']
     \<lparr>columns = [''Title'', ''Size''], rows = [[Str ''Hat'', Str ''S''], [Str ''Hat'', Str ''M'']]\<rparr>
     = Inl (ValueError ''No objects to concatenate'')"
proof -
  have m: "fuzzy_match_titles ratio (Some ''nan'') [''Hat'', ''Sock'']
     \<lparr>columns = [''Title'', ''Size''], rows = [[Str ''Hat'', Str ''S''], [Str ''Hat'', Str ''M'']]\<rparr> 95
     = Inr ([], [''Sock''], [(''Hat'', [''Hat'', ''Hat''])])"
    by (simp add: fuzzy_match_titles_def get_column_def astype_str_def
        process_extract_def default_limit_def ranked_def scored_def
        sort_desc_def ratio_def)
  have r: "resolve_conflicts (\<lambda>title options. ''Skip'') [(''Hat'', [''Hat'', ''Hat''])]
     \<lparr>columns = [''Title'', ''Size''], rows = [[Str ''Hat'', Str ''S''], [Str ''Hat'', Str ''M'']]\<rparr>
     = Inr []"
    by (simp add: resolve_conflicts_def)
  from no_row_sets_raises [OF m r] show ?thesis by simp
qed

section \<open>The product filter by Handle\<close>






section \<open>Resolution of one conflict\<close>

lemma resolve_loop_skip:
  "sb title (options @ [''Skip'']) = ''Skip'' \<Longrightarrow>
   resolve_loop sb ((title, options) # rest) inventory_df acc
     = resolve_loop sb rest inventory_df acc"
  by simp

lemma resolve_loop_choice:
  "sb title (options @ [''Skip'']) \<noteq> ''Skip'' \<Longrightarrow>
   rows_with_title inventory_df (sb title (options @ [''Skip''])) = Inr chosen \<Longrightarrow>
   resolve_loop sb ((title, options) # rest) inventory_df acc
     = resolve_loop sb rest inventory_df (acc @ [chosen])"
  by (simp add: Let_def)

text \<open>
  C7 fails on this run. Two inventory rows carry the title \<open>Skip\<close>; the selected title
  \<open>Skip\<close> is a conflict whose candidates are both \<open>Skip\<close>; the user takes the first offered
  option, a candidate. The resolver cannot tell it from the skip option and contributes no
  row set, although two inventory rows have that title.
\<close>

theorem candidate_named_skip_is_dropped:
  "fuzzy_match_titles ratio None [''Skip'']
     \<lparr>columns = [''Title'', ''Size''],
      rows = [[Str ''Skip'', Str ''S''], [Str ''Skip'', Str ''M'']]\<rparr> 95
     = Inr ([], [], [(''Skip'', [''Skip'', ''Skip''])]) \<and>
   resolve_conflicts (\<lambda>title options. hd options) [(''Skip'', [''Skip'', ''Skip''])]
     \<lparr>columns = [''Title'', ''Size''],
      rows = [[Str ''Skip'', Str ''S''], [Str ''Skip'', Str ''M'']]\<rparr>
     = Inr [] \<and>
   rows_with_title
     \<lparr>columns = [''Title'', ''Size''],
      rows = [[Str ''Skip'', Str ''S''], [Str ''Skip'', Str ''M'']]\<rparr> ''Skip''
     = Inr \<lparr>columns = [''Title'', ''Size''],
            rows = [[Str ''Skip'', Str ''S''], [Str ''Skip'', Str ''M'']]\<rparr>"
  by (simp add: fuzzy_match_titles_def get_column_def astype_str_def process_extract_def
      default_limit_def ranked_def scored_def sort_desc_def ratio_def
      resolve_conflicts_def rows_with_title_def)

section \<open>Building the filtered inventory\<close>








section \<open>Ranking of the matches\<close>

lemma length_insert_desc: "length (insert_desc x ys) = Suc (length ys)"
  by (induction ys) auto

lemma set_insert_desc: "set (insert_desc x ys) = insert x (set ys)"
  by (induction ys) auto

lemma sort_desc_Nil: "sort_desc [] = []"
  by (simp add: sort_desc_def)

lemma sort_desc_Cons: "sort_desc (x # ms) = insert_desc x (sort_desc ms)"
  by (simp add: sort_desc_def)

lemma length_sort_desc: "length (sort_desc ms) = length ms"
  by (induction ms) (simp_all add: sort_desc_Nil sort_desc_Cons length_insert_desc)

lemma set_sort_desc: "set (sort_desc ms) = set ms"
  by (induction ms) (simp_all add: sort_desc_Nil sort_desc_Cons set_insert_desc)

lemma sorted_insert_desc:
  "sorted_wrt ranks_before ys \<Longrightarrow> \<forall>y \<in> set ys. snd (snd x) < snd (snd y) \<Longrightarrow>
   sorted_wrt ranks_before (insert_desc x ys)"
proof (induction ys)
  case Nil
  then show ?case by simp
next
  case (Cons y ys)
  from Cons.prems(1) have below: "\<forall>z \<in> set ys. fst (snd z) \<le> fst (snd y)"
    by (auto simp: ranks_before_def)
  show ?case
  proof (cases "fst (snd y) \<le> fst (snd x)")
    case True
    with below have "\<forall>z \<in> set (y # ys). fst (snd z) \<le> fst (snd x)"
      by auto
    with Cons.prems(2) have "\<forall>z \<in> set (y # ys). ranks_before x z"
      by (auto simp: ranks_before_def)
    with Cons.prems(1) True show ?thesis by simp
  next
    case False
    then have xy: "ranks_before y x" by (simp add: ranks_before_def)
    from Cons.prems have "sorted_wrt ranks_before (insert_desc x ys)"
      by (intro Cons.IH) simp_all
    moreover from Cons.prems(1) xy have "\<forall>z \<in> set (insert_desc x ys). ranks_before y z"
      by (simp add: set_insert_desc)
    ultimately show ?thesis using False by simp
  qed
qed

lemma sorted_sort_desc:
  "sorted_wrt (\<lambda>a b. snd (snd a) < snd (snd b)) ms \<Longrightarrow> sorted_wrt ranks_before (sort_desc ms)"
proof (induction ms)
  case Nil
  then show ?case by (simp add: sort_desc_Nil)
next
  case (Cons x ms)
  from Cons.prems have "sorted_wrt ranks_before (sort_desc ms)"
    by (intro Cons.IH) simp
  moreover from Cons.prems have "\<forall>y \<in> set (sort_desc ms). snd (snd x) < snd (snd y)"
    by (simp add: set_sort_desc)
  ultimately show ?case by (simp add: sort_desc_Cons sorted_insert_desc)
qed

section \<open>The scored choices\<close>

lemma scored_from_index:
  "m \<in> set (List.map_filter (\<lambda>(i, c). map_option (\<lambda>s. (s, sc q s, i)) c) (enumerate n cs))
   \<Longrightarrow> n \<le> snd (snd m)"
proof (induction cs arbitrary: n)
  case Nil
  then show ?case by simp
next
  case (Cons c cs)
  then show ?case
    by (cases c) (fastforce dest: Cons.IH)+
qed

lemma scored_from_sorted:
  "sorted_wrt (\<lambda>a b. snd (snd a) < snd (snd b))
     (List.map_filter (\<lambda>(i, c). map_option (\<lambda>s. (s, sc q s, i)) c) (enumerate n cs))"
proof (induction cs arbitrary: n)
  case Nil
  then show ?case by simp
next
  case (Cons c cs)
  show ?case
  proof (cases c)
    case None
    then show ?thesis using Cons.IH [of "Suc n"] by simp
  next
    case (Some s)
    have "\<forall>m \<in> set (List.map_filter (\<lambda>(i, c). map_option (\<lambda>s. (s, sc q s, i)) c)
                       (enumerate (Suc n) cs)). n < snd (snd m)"
    proof
      fix m
      assume "m \<in> set (List.map_filter (\<lambda>(i, c). map_option (\<lambda>s. (s, sc q s, i)) c)
                         (enumerate (Suc n) cs))"
      from scored_from_index [of m sc q "Suc n" cs, OF this] show "n < snd (snd m)" by simp
    qed
    then show ?thesis using Some Cons.IH [of "Suc n"] by simp
  qed
qed

lemma scored_from_set:
  "set (List.map_filter (\<lambda>(i, c). map_option (\<lambda>s. (s, sc q s, i)) c) (enumerate n cs))
     = {(s, sc q s, n + i) | s i. i < length cs \<and> cs ! i = Some s}"
proof (induction cs arbitrary: n)
  case Nil
  then show ?case by simp
next
  case (Cons c cs)
  have split: "{(s, sc q s, n + i) | s i. i < length (c # cs) \<and> (c # cs) ! i = Some s}
      = {(s, sc q s, n) | s. c = Some s}
        \<union> {(s, sc q s, Suc n + i) | s i. i < length cs \<and> cs ! i = Some s}"
  proof (intro set_eqI iffI)
    fix m
    assume "m \<in> {(s, sc q s, n + i) | s i. i < length (c # cs) \<and> (c # cs) ! i = Some s}"
    then obtain s i where m: "m = (s, sc q s, n + i)"
      and i: "i < length (c # cs)" and at: "(c # cs) ! i = Some s"
      by auto
    show "m \<in> {(s, sc q s, n) | s. c = Some s}
        \<union> {(s, sc q s, Suc n + i) | s i. i < length cs \<and> cs ! i = Some s}"
    proof (cases i)
      case 0
      with m at show ?thesis by simp
    next
      case (Suc k)
      with m i at show ?thesis by auto
    qed
  next
    fix m
    assume "m \<in> {(s, sc q s, n) | s. c = Some s}
        \<union> {(s, sc q s, Suc n + i) | s i. i < length cs \<and> cs ! i = Some s}"
    then consider s where "m = (s, sc q s, n)" "c = Some s"
      | s i where "m = (s, sc q s, Suc n + i)" "i < length cs" "cs ! i = Some s"
      by auto
    then show "m \<in> {(s, sc q s, n + i) | s i. i < length (c # cs) \<and> (c # cs) ! i = Some s}"
    proof cases
      case 1
      then have "m = (s, sc q s, n + 0) \<and> 0 < length (c # cs) \<and> (c # cs) ! 0 = Some s"
        by simp
      then show ?thesis by blast
    next
      case 2
      then have "m = (s, sc q s, n + Suc i) \<and> Suc i < length (c # cs) \<and> (c # cs) ! Suc i = Some s"
        by simp
      then show ?thesis by blast
    qed
  qed
  show ?case
    unfolding split using Cons.IH [of "Suc n"]
    by (cases c) auto
qed

lemma scored_from_titles:
  "map fst (filter (\<lambda>m. th \<le> fst (snd m))
     (List.map_filter (\<lambda>(i, c). map_option (\<lambda>s. (s, sc q s, i)) c) (enumerate n cs)))
   = filter (\<lambda>c. th \<le> sc q c) (List.map_filter (\<lambda>c. c) cs)"
  by (induction cs arbitrary: n) (auto split: option.splits)

section \<open>The ranked matches\<close>

lemma kept_titles:
  "map fst (filter (\<lambda>m. th \<le> fst (snd m)) (scored sc q cs)) = hits sc th cs q"
  by (simp add: scored_def hits_def scored_from_titles)

lemma length_ranked: "length (ranked sc q cs th) = length (hits sc th cs q)"
proof -
  have "length (ranked sc q cs th) = length (filter (\<lambda>m. th \<le> fst (snd m)) (scored sc q cs))"
    by (simp add: ranked_def length_sort_desc)
  also have "\<dots> = length (map fst (filter (\<lambda>m. th \<le> fst (snd m)) (scored sc q cs)))"
    by simp
  finally show ?thesis by (simp only: kept_titles)
qed

lemma sorted_ranked: "sorted_wrt ranks_before (ranked sc q cs th)"
  unfolding ranked_def scored_def
  by (intro sorted_sort_desc sorted_wrt_filter scored_from_sorted)

lemma set_ranked:
  "set (ranked sc q cs th)
     = {(s, sc q s, i) | s i. i < length cs \<and> cs ! i = Some s \<and> th \<le> sc q s}"
proof -
  have "set (scored sc q cs) = {(s, sc q s, i) | s i. i < length cs \<and> cs ! i = Some s}"
    using scored_from_set [of sc q 0 cs] by (simp add: scored_def)
  then show ?thesis by (auto simp: ranked_def set_sort_desc)
qed

lemma ranked_single:
  assumes "length (hits sc th cs q) = 1"
  shows "map fst (ranked sc q cs th) = hits sc th cs q"
proof -
  let ?kept = "filter (\<lambda>m. th \<le> fst (snd m)) (scored sc q cs)"
  from assms have "length ?kept = 1"
    using kept_titles [of th sc q cs, symmetric] by (simp del: length_filter_le)
  then obtain x where x: "?kept = [x]"
    by (cases ?kept) auto
  then have "ranked sc q cs th = ?kept"
    by (simp add: ranked_def sort_desc_Cons sort_desc_Nil)
  then show ?thesis by (simp only: kept_titles)
qed

lemma take_five_empty: "take 5 (ranked sc q cs th) = [] \<longleftrightarrow> hits sc th cs q = []"
  using length_ranked [of sc q cs th] by (auto simp: take_eq_Nil)

lemma take_five_single:
  "length (take 5 (ranked sc q cs th)) = 1 \<longleftrightarrow> length (hits sc th cs q) = 1"
  using length_ranked [of sc q cs th] by auto

lemma take_five_hd:
  assumes "length (hits sc th cs q) = 1"
  shows "fst (hd (take 5 (ranked sc q cs th))) = hd (hits sc th cs q)"
proof -
  from assms obtain h where h: "hits sc th cs q = [h]"
    by (cases "hits sc th cs q") auto
  with ranked_single [OF assms] obtain x where "ranked sc q cs th = [x]" and "fst x = h"
    by (cases "ranked sc q cs th") auto
  with h show ?thesis by simp
qed

section \<open>What the matching loop returns\<close>

lemma rows_with_title_at:
  "index_of ''Title'' (columns df) = Some i \<Longrightarrow>
   rows_with_title df s = Inr (df\<lparr>rows := filter (\<lambda>r. r ! i = Str s) (rows df)\<rparr>)"
  by (simp add: rows_with_title_def)

lemma fuzzy_match_loop_outputs:
  assumes i: "index_of ''Title'' (columns df) = Some i"
    and lo: "0 \<le> th" and hi: "th \<le> 100"
  shows "fuzzy_match_loop sc ts df th sel (m, u, c) =
     Inr (m @ map (\<lambda>t. df\<lparr>rows := filter (\<lambda>r. r ! i = Str (hd (hits sc th ts t))) (rows df)\<rparr>)
                (filter (\<lambda>t. length (hits sc th ts t) = 1) sel),
          u @ filter (\<lambda>t. hits sc th ts t = []) sel,
          foldl (\<lambda>c t. AList.update t (map fst (take 5 (ranked sc t ts th))) c) c
            (filter (\<lambda>t. 2 \<le> length (hits sc th ts t)) sel))"
proof (induction sel arbitrary: m u c)
  case Nil
  then show ?case by simp
next
  case (Cons title rest)
  let ?ms = "take 5 (ranked sc title ts th)"
  have ex: "process_extract title ts sc default_limit th = Inr ?ms"
    using lo hi by (rule process_extract_in_range)
  show ?case
  proof (cases "hits sc th ts title = []")
    case True
    then have "?ms = []" by (simp only: take_five_empty)
    then show ?thesis using True Cons.IH by (simp add: ex)
  next
    case ne: False
    then have ms_ne: "?ms \<noteq> []" by (simp only: take_five_empty) simp
    show ?thesis
    proof (cases "length (hits sc th ts title) = 1")
      case True
      then have one: "length ?ms = 1" by (simp only: take_five_single)
      have "rows_with_title df (fst (hd ?ms))
          = Inr (df\<lparr>rows := filter (\<lambda>r. r ! i = Str (hd (hits sc th ts title))) (rows df)\<rparr>)"
        by (simp only: take_five_hd [OF True] rows_with_title_at [OF i])
      then show ?thesis using True ne ms_ne one Cons.IH by (simp add: ex)
    next
      case False
      then have many: "length ?ms \<noteq> 1" by (simp only: take_five_single) simp
      from False ne have two: "2 \<le> length (hits sc th ts title)"
        by (cases "hits sc th ts title") (simp_all add: Suc_le_eq)
      show ?thesis using False ne ms_ne many two Cons.IH by (simp add: ex)
    qed
  qed
qed

lemma map_of_foldl_update:
  "map_of (foldl (\<lambda>c t. AList.update t (g t) c) c ts) k
     = (if k \<in> set ts then Some (g k) else map_of c k)"
  by (induction ts arbitrary: c) (simp_all add: update_conv')

lemma fuzzy_match_titles_outputs:
  assumes col: "get_column df ''Title'' = Inr cells"
    and lo: "0 \<le> th" and hi: "th \<le> 100"
  shows "\<exists>i. index_of ''Title'' (columns df) = Some i \<and>
     fuzzy_match_titles sc na sel df th =
       Inr (map (\<lambda>t. df\<lparr>rows := filter (\<lambda>r. r ! i =
                        Str (hd (hits sc th (map (astype_str na) cells) t))) (rows df)\<rparr>)
              (filter (\<lambda>t. length (hits sc th (map (astype_str na) cells) t) = 1) sel),
            filter (\<lambda>t. hits sc th (map (astype_str na) cells) t = []) sel,
            foldl (\<lambda>c t. AList.update t
                     (map fst (take 5 (ranked sc t (map (astype_str na) cells) th))) c) []
              (filter (\<lambda>t. 2 \<le> length (hits sc th (map (astype_str na) cells) t)) sel))"
proof -
  from col obtain i where i: "index_of ''Title'' (columns df) = Some i"
    by (cases "index_of ''Title'' (columns df)") (simp_all add: get_column_def)
  from fuzzy_match_loop_outputs [OF i lo hi, of sc "map (astype_str na) cells" sel "[]" "[]" "[]"]
  have "fuzzy_match_titles sc na sel df th =
       Inr (map (\<lambda>t. df\<lparr>rows := filter (\<lambda>r. r ! i =
                        Str (hd (hits sc th (map (astype_str na) cells) t))) (rows df)\<rparr>)
              (filter (\<lambda>t. length (hits sc th (map (astype_str na) cells) t) = 1) sel),
            filter (\<lambda>t. hits sc th (map (astype_str na) cells) t = []) sel,
            foldl (\<lambda>c t. AList.update t
                     (map fst (take 5 (ranked sc t (map (astype_str na) cells) th))) c) []
              (filter (\<lambda>t. 2 \<le> length (hits sc th (map (astype_str na) cells) t)) sel))"
    by (simp add: fuzzy_match_titles_def col)
  with i show ?thesis by (intro exI conjI)
qed

section \<open>Classification of the selected titles\<close>

text \<open>
  One distinct inventory title, \<open>Hat\<close>, scores at or above the threshold, on two rows. The
  selected title is not a unique match: it is a conflict between \<open>Hat\<close> and \<open>Hat\<close>.
\<close>

theorem repeated_title_is_a_conflict:
  "remdups (hits ratio 95 [Some ''Hat'', Some ''Hat''] ''Hat'') = [''Hat''] \<and>
   fuzzy_match_titles ratio None [''Hat'']
     \<lparr>columns = [''Title'', ''Size''], rows = [[Str ''Hat'', Str ''S''], [Str ''Hat'', Str ''M'']]\<rparr> 95
     = Inr ([], [], [(''Hat'', [''Hat'', ''Hat''])])"
  by (simp add: hits_def fuzzy_match_titles_def get_column_def astype_str_def
      process_extract_def default_limit_def ranked_def scored_def sort_desc_def ratio_def)

text \<open>
  C1, as the code has it. On valid inputs the matcher returns, and every selected title is
  classified by the number of inventory title entries (one per inventory row, repeated
  titles counted as often as they occur) that score at or above the threshold against it:
  the unmatched titles are the selected titles with no such entry, in order; the matched
  row sets are, in order, one for each selected title with exactly one such entry, namely
  the inventory rows whose Title is that entry; the keys of the conflict map are the
  selected titles with two or more such entries.
\<close>

theorem classification_by_matching_entries:
  assumes "wf_table inventory_df"
    and "get_column inventory_df ''Title'' = Inr title_cells"
    and "0 \<le> threshold" and "threshold \<le> 100"
  shows "\<exists>matched unmatched conflicts.
     fuzzy_match_titles sc na selected_titles inventory_df threshold
       = Inr (matched, unmatched, conflicts) \<and>
     unmatched =
       filter (\<lambda>t. length (hits sc threshold (map (astype_str na) title_cells) t) = 0)
         selected_titles \<and>
     map Inr matched =
       map (\<lambda>t. rows_with_title inventory_df
                  (hd (hits sc threshold (map (astype_str na) title_cells) t)))
         (filter (\<lambda>t. length (hits sc threshold (map (astype_str na) title_cells) t) = 1)
            selected_titles) \<and>
     dom (map_of conflicts) =
       {t \<in> set selected_titles.
          2 \<le> length (hits sc threshold (map (astype_str na) title_cells) t)}"
proof -
  from fuzzy_match_titles_outputs [OF assms(2-4), of sc na selected_titles]
  obtain i where i: "index_of ''Title'' (columns inventory_df) = Some i"
    and run: "fuzzy_match_titles sc na selected_titles inventory_df threshold =
       Inr (map (\<lambda>t. inventory_df\<lparr>rows := filter (\<lambda>r. r ! i =
                        Str (hd (hits sc threshold (map (astype_str na) title_cells) t)))
                          (rows inventory_df)\<rparr>)
              (filter (\<lambda>t. length (hits sc threshold (map (astype_str na) title_cells) t) = 1)
                 selected_titles),
            filter (\<lambda>t. hits sc threshold (map (astype_str na) title_cells) t = [])
              selected_titles,
            foldl (\<lambda>c t. AList.update t
                     (map fst (take 5 (ranked sc t (map (astype_str na) title_cells) threshold))) c)
              []
              (filter (\<lambda>t. 2 \<le> length (hits sc threshold (map (astype_str na) title_cells) t))
                 selected_titles))"
    by auto
  have "dom (map_of (foldl (\<lambda>c t. AList.update t
                     (map fst (take 5 (ranked sc t (map (astype_str na) title_cells) threshold))) c)
              []
              (filter (\<lambda>t. 2 \<le> length (hits sc threshold (map (astype_str na) title_cells) t))
                 selected_titles)))
        = {t \<in> set selected_titles.
            2 \<le> length (hits sc threshold (map (astype_str na) title_cells) t)}"
    by (auto simp: dom_def map_of_foldl_update)
  with run show ?thesis
    by (simp add: rows_with_title_at [OF i] comp_def)
qed

theorem classification_by_matching_entries_witness:
  "wf_table \<lparr>columns = [''Title'', ''Size''],
      rows = [[Str ''Hat'', Str ''S''], [Str ''Hat'', Str ''M''], [Str ''Cap'', Str ''L'']]\<rparr> \<and>
   (\<exists>matched unmatched conflicts.
     fuzzy_match_titles ratio None [''Cap'', ''Hat'', ''Sock'']
       \<lparr>columns = [''Title'', ''Size''],
        rows = [[Str ''Hat'', Str ''S''], [Str ''Hat'', Str ''M''], [Str ''Cap'', Str ''L'']]\<rparr> 95
       = Inr (matched, unmatched, conflicts) \<and>
     unmatched = [''Sock''] \<and>
     map Inr matched =
       [rows_with_title
          \<lparr>columns = [''Title'', ''Size''],
           rows = [[Str ''Hat'', Str ''S''], [Str ''Hat'', Str ''M''], [Str ''Cap'', Str ''L'']]\<rparr>
          ''Cap''] \<and>
     dom (map_of conflicts) = {''Hat''})"
proof -
  let ?T = "\<lparr>columns = [''Title'', ''Size''],
      rows = [[Str ''Hat'', Str ''S''], [Str ''Hat'', Str ''M''], [Str ''Cap'', Str ''L'']]\<rparr>"
  let ?ts = "[Some ''Hat'', Some ''Hat'', Some ''Cap'']"
  have ts: "map (astype_str None) [Str ''Hat'', Str ''Hat'', Str ''Cap''] = ?ts"
    by (simp add: astype_str_def)
  have wf: "wf_table ?T" by (simp add: wf_table_def)
  have col: "get_column ?T ''Title'' = Inr [Str ''Hat'', Str ''Hat'', Str ''Cap'']"
    by (simp add: get_column_def)
  have cap: "hits ratio 95 ?ts ''Cap'' = [''Cap'']"
    by (simp add: hits_def ratio_def)
  have hat: "hits ratio 95 ?ts ''Hat'' = [''Hat'', ''Hat'']"
    by (simp add: hits_def ratio_def)
  have sock: "hits ratio 95 ?ts ''Sock'' = []"
    by (simp add: hits_def ratio_def)
  have none: "filter (\<lambda>t. length (hits ratio 95 ?ts t) = 0) [''Cap'', ''Hat'', ''Sock'']
      = [''Sock'']"
    by (simp only: filter.simps cap hat sock) simp
  have one: "filter (\<lambda>t. length (hits ratio 95 ?ts t) = 1) [''Cap'', ''Hat'', ''Sock'']
      = [''Cap'']"
    by (simp only: filter.simps cap hat sock) simp
  have "{t \<in> set [''Cap'', ''Hat'', ''Sock'']. 2 \<le> length (hits ratio 95 ?ts t)}
      = set (filter (\<lambda>t. 2 \<le> length (hits ratio 95 ?ts t)) [''Cap'', ''Hat'', ''Sock''])"
    by (simp only: set_filter)
  also have "filter (\<lambda>t. 2 \<le> length (hits ratio 95 ?ts t)) [''Cap'', ''Hat'', ''Sock'']
      = [''Hat'']"
    by (simp only: filter.simps cap hat sock) simp
  finally have many: "{t \<in> set [''Cap'', ''Hat'', ''Sock'']. 2 \<le> length (hits ratio 95 ?ts t)}
      = {''Hat''}"
    by simp
  let ?cs = "map (astype_str None) [Str ''Hat'', Str ''Hat'', Str ''Cap'']"
  have "\<exists>matched unmatched conflicts.
     fuzzy_match_titles ratio None [''Cap'', ''Hat'', ''Sock''] ?T 95
       = Inr (matched, unmatched, conflicts) \<and>
     unmatched = filter (\<lambda>t. length (hits ratio 95 ?cs t) = 0) [''Cap'', ''Hat'', ''Sock''] \<and>
     map Inr matched =
       map (\<lambda>t. rows_with_title ?T (hd (hits ratio 95 ?cs t)))
         (filter (\<lambda>t. length (hits ratio 95 ?cs t) = 1) [''Cap'', ''Hat'', ''Sock'']) \<and>
     dom (map_of conflicts) =
       {t \<in> set [''Cap'', ''Hat'', ''Sock'']. 2 \<le> length (hits ratio 95 ?cs t)}"
    by (rule classification_by_matching_entries [OF wf col]) simp_all
  then have "\<exists>matched unmatched conflicts.
     fuzzy_match_titles ratio None [''Cap'', ''Hat'', ''Sock''] ?T 95
       = Inr (matched, unmatched, conflicts) \<and>
     unmatched = filter (\<lambda>t. length (hits ratio 95 ?ts t) = 0) [''Cap'', ''Hat'', ''Sock''] \<and>
     map Inr matched =
       map (\<lambda>t. rows_with_title ?T (hd (hits ratio 95 ?ts t)))
         (filter (\<lambda>t. length (hits ratio 95 ?ts t) = 1) [''Cap'', ''Hat'', ''Sock'']) \<and>
     dom (map_of conflicts) =
       {t \<in> set [''Cap'', ''Hat'', ''Sock'']. 2 \<le> length (hits ratio 95 ?ts t)}"
    by (simp only: ts)
  then have "\<exists>matched unmatched conflicts.
     fuzzy_match_titles ratio None [''Cap'', ''Hat'', ''Sock''] ?T 95
       = Inr (matched, unmatched, conflicts) \<and>
     unmatched = [''Sock''] \<and>
     map Inr matched = [rows_with_title ?T ''Cap''] \<and>
     dom (map_of conflicts) = {''Hat''}"
    by (simp only: none one many list.map cap list.sel)
  with wf show ?thesis by (rule conjI)
qed

section \<open>The candidates of a conflict\<close>

text \<open>
  Six inventory titles score at or above the threshold against the selected title. The
  conflict offers five of them; the sixth, which scores as high as the others, is left out.
\<close>

theorem sixth_candidate_is_omitted:
  "95 \<le> ratio ''Classic Tee'' ''Classic Tee6'' \<and>
   fuzzy_match_titles ratio None [''Classic Tee'']
     \<lparr>columns = [''Title''],
      rows = [[Str ''Classic Tee1''], [Str ''Classic Tee2''], [Str ''Classic Tee3''],
              [Str ''Classic Tee4''], [Str ''Classic Tee5''], [Str ''Classic Tee6'']]\<rparr> 95
     = Inr ([], [],
         [(''Classic Tee'',
           [''Classic Tee1'', ''Classic Tee2'', ''Classic Tee3'', ''Classic Tee4'',
            ''Classic Tee5''])])"
  by (simp add: fuzzy_match_titles_def get_column_def astype_str_def
      process_extract_def default_limit_def ranked_def scored_def sort_desc_def ratio_def)

text \<open>
  C2, as the code has it. In a run on valid inputs, the candidates recorded for a
  conflicting title are the titles of the first five matches of a ranking (all of them
  when there are at most five): the ranking holds exactly the inventory title entries that
  score at or above the threshold, each with its score and its position in the inventory,
  the higher score first and, of equal scores, the earlier position first; it has at least
  two entries.
\<close>

theorem conflict_candidates_are_the_first_five:
  assumes "wf_table inventory_df"
    and "get_column inventory_df ''Title'' = Inr title_cells"
    and "0 \<le> threshold" and "threshold \<le> 100"
    and "fuzzy_match_titles sc na selected_titles inventory_df threshold
           = Inr (matched, unmatched, conflicts)"
    and "map_of conflicts title = Some candidates"
  shows "\<exists>ranking.
     candidates = map fst (take 5 ranking) \<and>
     sorted_wrt ranks_before ranking \<and>
     set ranking =
       {(s, sc title s, i) | s i.
          i < length title_cells \<and> astype_str na (title_cells ! i) = Some s \<and>
          threshold \<le> sc title s} \<and>
     2 \<le> length ranking"
proof -
  let ?ts = "map (astype_str na) title_cells"
  let ?many = "filter (\<lambda>t. 2 \<le> length (hits sc threshold ?ts t)) selected_titles"
  from fuzzy_match_titles_outputs [OF assms(2-4), of sc na selected_titles] assms(5)
  have "conflicts =
      foldl (\<lambda>c t. AList.update t (map fst (take 5 (ranked sc t ?ts threshold))) c) [] ?many"
    by auto
  with assms(6) have
    "(if title \<in> set ?many then Some (map fst (take 5 (ranked sc title ?ts threshold)))
      else None) = Some candidates"
    by (simp only: map_of_foldl_update map_of.simps)
  then have cands: "candidates = map fst (take 5 (ranked sc title ?ts threshold))"
    and many: "2 \<le> length (hits sc threshold ?ts title)"
    by (auto split: if_splits)
  have "set (ranked sc title ?ts threshold) =
      {(s, sc title s, i) | s i. i < length ?ts \<and> ?ts ! i = Some s \<and> threshold \<le> sc title s}"
    by (rule set_ranked)
  also have "\<dots> = {(s, sc title s, i) | s i.
          i < length title_cells \<and> astype_str na (title_cells ! i) = Some s \<and>
          threshold \<le> sc title s}"
    by auto
  finally have members: "set (ranked sc title ?ts threshold) =
      {(s, sc title s, i) | s i.
          i < length title_cells \<and> astype_str na (title_cells ! i) = Some s \<and>
          threshold \<le> sc title s}" .
  from many have long: "2 \<le> length (ranked sc title ?ts threshold)"
    by (simp only: length_ranked)
  from cands sorted_ranked [of sc title ?ts threshold] members long
  show ?thesis by (intro exI conjI)
qed

theorem conflict_candidates_are_the_first_five_witness:
  "fuzzy_match_titles ratio None [''Hat'']
     \<lparr>columns = [''Title'', ''Size''], rows = [[Str ''Hat'', Str ''S''], [Str ''Hat'', Str ''M'']]\<rparr> 95
     = Inr ([], [], [(''Hat'', [''Hat'', ''Hat''])]) \<and>
   (\<exists>ranking.
     [''Hat'', ''Hat''] = map fst (take 5 ranking) \<and>
     sorted_wrt ranks_before ranking \<and>
     set ranking =
       {(s, ratio ''Hat'' s, i) | s i.
          i < length [Str ''Hat'', Str ''Hat''] \<and>
          astype_str None ([Str ''Hat'', Str ''Hat''] ! i) = Some s \<and>
          95 \<le> ratio ''Hat'' s} \<and>
     2 \<le> length ranking)"
proof -
  let ?T = "\<lparr>columns = [''Title'', ''Size''],
      rows = [[Str ''Hat'', Str ''S''], [Str ''Hat'', Str ''M'']]\<rparr>"
  have wf: "wf_table ?T" by (simp add: wf_table_def)
  have col: "get_column ?T ''Title'' = Inr [Str ''Hat'', Str ''Hat'']"
    by (simp add: get_column_def)
  have lo: "(0 :: rat) \<le> 95" and hi: "(95 :: rat) \<le> 100" by simp_all
  have run: "fuzzy_match_titles ratio None [''Hat''] ?T 95
      = Inr ([], [], [(''Hat'', [''Hat'', ''Hat''])])"
    by (simp add: fuzzy_match_titles_def get_column_def astype_str_def
        process_extract_def default_limit_def ranked_def scored_def sort_desc_def ratio_def)
  have key: "map_of [(''Hat'', [''Hat'', ''Hat''])] ''Hat'' = Some [''Hat'', ''Hat'']"
    by simp
  from run conflict_candidates_are_the_first_five [OF wf col lo hi run key]
  show ?thesis by (rule conjI)
qed

section \<open>Determinism of the matcher\<close>







end
